theory Spec2Isabelle
  imports Complex_Main
begin

section \<open>Python floats\<close>

text \<open>
  The loudness values, gains and float samples of \<^verbatim>\<open>audio_normalizer.py\<close> are Python and
  NumPy floats. A finite float is modelled by the real number it denotes (rounding, and
  overflow of arithmetic to infinity, are not modelled); the three special values are kept, because the
  loudness meter returns negative infinity for silence and the arithmetic of
  \<^verbatim>\<open>normalize_audio\<close> then runs on it.
\<close>

datatype pyfloat = NaN | NegInf | Fin real | PosInf

fun fneg :: "pyfloat \<Rightarrow> pyfloat" where
  "fneg NaN = NaN"
| "fneg NegInf = PosInf"
| "fneg PosInf = NegInf"
| "fneg (Fin x) = Fin (- x)"

fun fadd :: "pyfloat \<Rightarrow> pyfloat \<Rightarrow> pyfloat" where
  "fadd NaN _ = NaN"
| "fadd _ NaN = NaN"
| "fadd PosInf NegInf = NaN"
| "fadd NegInf PosInf = NaN"
| "fadd PosInf _ = PosInf"
| "fadd _ PosInf = PosInf"
| "fadd NegInf _ = NegInf"
| "fadd _ NegInf = NegInf"
| "fadd (Fin x) (Fin y) = Fin (x + y)"

definition fsub :: "pyfloat \<Rightarrow> pyfloat \<Rightarrow> pyfloat" where
  "fsub a b = fadd a (fneg b)"

text \<open>\<open>fgt a b\<close> is Python's \<^verbatim>\<open>a > b\<close>, \<open>fle a b\<close> is \<^verbatim>\<open>a <= b\<close>: false when either is NaN.\<close>

fun fgt :: "pyfloat \<Rightarrow> pyfloat \<Rightarrow> bool" where
  "fgt NaN _ = False"
| "fgt _ NaN = False"
| "fgt NegInf _ = False"
| "fgt _ PosInf = False"
| "fgt PosInf _ = True"
| "fgt _ NegInf = True"
| "fgt (Fin x) (Fin y) = (y < x)"

fun fle :: "pyfloat \<Rightarrow> pyfloat \<Rightarrow> bool" where
  "fle NaN _ = False"
| "fle _ NaN = False"
| "fle NegInf _ = True"
| "fle _ PosInf = True"
| "fle PosInf _ = False"
| "fle _ NegInf = False"
| "fle (Fin x) (Fin y) = (x \<le> y)"

text \<open>Multiplication: infinity times zero is NaN, otherwise the sign rule.\<close>

definition inf_of_sign :: "real \<Rightarrow> pyfloat" where
  "inf_of_sign s = (if s = 0 then NaN else if 0 < s then PosInf else NegInf)"

fun fmul :: "pyfloat \<Rightarrow> pyfloat \<Rightarrow> pyfloat" where
  "fmul NaN _ = NaN"
| "fmul _ NaN = NaN"
| "fmul (Fin x) (Fin y) = Fin (x * y)"
| "fmul PosInf (Fin y) = inf_of_sign y"
| "fmul NegInf (Fin y) = inf_of_sign (- y)"
| "fmul (Fin x) PosInf = inf_of_sign x"
| "fmul (Fin x) NegInf = inf_of_sign (- x)"
| "fmul PosInf PosInf = PosInf"
| "fmul NegInf NegInf = PosInf"
| "fmul PosInf NegInf = NegInf"
| "fmul NegInf PosInf = NegInf"

text \<open>Division by a positive finite constant, as in \<^verbatim>\<open>delta_loudness / 20.0\<close>.\<close>

fun fdiv_const :: "pyfloat \<Rightarrow> real \<Rightarrow> pyfloat" where
  "fdiv_const (Fin x) k = Fin (x / k)"
| "fdiv_const v k = v"

text \<open>\<^verbatim>\<open>np.power(10.0, x)\<close>.\<close>

fun fpow10 :: "pyfloat \<Rightarrow> pyfloat" where
  "fpow10 NaN = NaN"
| "fpow10 NegInf = Fin 0"
| "fpow10 PosInf = PosInf"
| "fpow10 (Fin x) = Fin (10 powr x)"

text \<open>\<^verbatim>\<open>np.clip(x, -1.0, 1.0)\<close>: NaN stays NaN, the infinities go to the bounds.\<close>

fun fclip :: "pyfloat \<Rightarrow> pyfloat" where
  "fclip NaN = NaN"
| "fclip NegInf = Fin (- 1)"
| "fclip PosInf = Fin 1"
| "fclip (Fin x) = Fin (min (max x (- 1)) 1)"

section \<open>Audio segments and sample arrays\<close>

text \<open>
  A pydub \<^verbatim>\<open>AudioSegment\<close> as the source reads it: its three format attributes and the
  integer samples \<^verbatim>\<open>get_array_of_samples()\<close> returns, interleaved by channel.
\<close>

record audio_segment =
  frame_rate :: int
  sample_width :: int
  channels :: int
  samples :: "int list"

datatype py_error = ValueError | IndexError | OverflowError | CollaboratorError

text \<open>A NumPy array of one or two dimensions (rows of one frame each).\<close>

datatype 'a ndarray = Arr1 "'a list" | Arr2 "'a list list"

fun map_nd :: "('a \<Rightarrow> 'b) \<Rightarrow> 'a ndarray \<Rightarrow> 'b ndarray" where
  "map_nd f (Arr1 xs) = Arr1 (map f xs)"
| "map_nd f (Arr2 rows) = Arr2 (map (map f) rows)"


text \<open>\<^verbatim>\<open>2 ** e\<close> on Python integers, read as a float: a negative exponent gives a fraction.\<close>

definition py_pow2 :: "int \<Rightarrow> real" where
  "py_pow2 e = (if 0 \<le> e then 2 ^ nat e else 1 / 2 ^ nat (- e))"

text \<open>
  \<^verbatim>\<open>float(n)\<close> of a Python integer raises OverflowError when \<open>n\<close> is too large for a
  double, that is from \<open>2^1024 - 2^970\<close> on, where rounding no longer gives a finite value.
\<close>

definition py_float :: "real \<Rightarrow> py_error + real" where
  "py_float x = (if 2 ^ 1024 - 2 ^ 970 \<le> \<bar>x\<bar> then Inl OverflowError else Inr x)"

text \<open>
  \<^verbatim>\<open>samples.reshape((-1, channels))\<close>: row \<open>k\<close> holds the \<open>c\<close> samples of frame \<open>k\<close>; NumPy
  raises ValueError when the size is not a multiple of \<open>c\<close>.
\<close>

definition rows_of :: "nat \<Rightarrow> 'a list \<Rightarrow> 'a list list" where
  "rows_of c xs = map (\<lambda>k. take c (drop (k * c) xs)) [0..<length xs div c]"

definition reshape_channels :: "int \<Rightarrow> 'a list \<Rightarrow> py_error + 'a list list" where
  "reshape_channels c xs =
     (if length xs mod nat c = 0 then Inr (rows_of (nat c) xs) else Inl ValueError)"

definition audiosegment_to_numpy :: "audio_segment \<Rightarrow> py_error + (pyfloat ndarray \<times> int)" where
  "audiosegment_to_numpy seg =
     (case py_float (py_pow2 (8 * sample_width seg - 1)) of
        Inl e \<Rightarrow> Inl e
      | Inr max_val \<Rightarrow>
          (let fs = map (\<lambda>s. Fin (real_of_int s / max_val)) (samples seg)
           in if channels seg > 1
              then (case reshape_channels (channels seg) fs of
                      Inl e \<Rightarrow> Inl e
                    | Inr rows \<Rightarrow> Inr (Arr2 rows, frame_rate seg))
              else Inr (Arr1 fs, frame_rate seg)))"

section \<open>Gain and loudness normalization\<close>

text \<open>
  \<^verbatim>\<open>pyln.normalize.loudness(data, input_loudness, target_loudness)\<close> is the library routine
  the source calls: it scales the data by \<open>10 ^ (delta / 20)\<close> for
  \<open>delta = target_loudness - input_loudness\<close>.
\<close>

definition delta_loudness :: "pyfloat \<Rightarrow> pyfloat \<Rightarrow> pyfloat" where
  "delta_loudness input_loudness target_loudness = fsub target_loudness input_loudness"

definition linear_gain :: "pyfloat \<Rightarrow> pyfloat" where
  "linear_gain delta = fpow10 (fdiv_const delta 20)"

definition pyln_normalize_loudness ::
  "pyfloat ndarray \<Rightarrow> pyfloat \<Rightarrow> pyfloat \<Rightarrow> pyfloat ndarray" where
  "pyln_normalize_loudness data input_loudness target_loudness =
     map_nd (fmul (linear_gain (delta_loudness input_loudness target_loudness))) data"

text \<open>Lines 150 to 157: whether the gain is limited, and the target handed to the library.\<close>

definition gain_limited :: "pyfloat \<Rightarrow> pyfloat \<Rightarrow> pyfloat \<Rightarrow> bool" where
  "gain_limited loudness target_loudness max_gain_increase =
     fgt (fsub target_loudness loudness) max_gain_increase"

definition limited_target :: "pyfloat \<Rightarrow> pyfloat \<Rightarrow> pyfloat \<Rightarrow> pyfloat" where
  "limited_target loudness target_loudness max_gain_increase =
     (if gain_limited loudness target_loudness max_gain_increase
      then fadd loudness max_gain_increase else target_loudness)"

text \<open>The gain in dB that \<^verbatim>\<open>normalize_audio\<close> has the library apply.\<close>

definition applied_gain_db :: "pyfloat \<Rightarrow> pyfloat \<Rightarrow> pyfloat \<Rightarrow> pyfloat" where
  "applied_gain_db loudness target_loudness max_gain_increase =
     delta_loudness loudness (limited_target loudness target_loudness max_gain_increase)"

section \<open>Quantization\<close>

definition sample_width_to_dtype :: "int \<Rightarrow> nat option" where
  "sample_width_to_dtype w =
     (if w = 1 then Some 8 else if w = 2 then Some 16
      else if w = 3 then Some 32 else if w = 4 then Some 32 else None)"

definition trunc_zero :: "real \<Rightarrow> int" where
  "trunc_zero x = (if 0 \<le> x then \<lfloor>x\<rfloor> else \<lceil>x\<rceil>)"

text \<open>
  \<^verbatim>\<open>astype(dtype)\<close> from float to a signed integer of \<open>bits\<close> bits truncates toward zero.
  NumPy leaves the result of casting NaN, an infinity or an out-of-range value to the
  platform; \<open>invalid\<close> stands for that result.
\<close>

definition astype_int :: "nat \<Rightarrow> int \<Rightarrow> pyfloat \<Rightarrow> int" where
  "astype_int bits invalid v =
     (case v of
        Fin x \<Rightarrow>
          (if - (2 ^ (bits - 1)) \<le> trunc_zero x \<and> trunc_zero x < 2 ^ (bits - 1)
           then trunc_zero x else invalid)
      | _ \<Rightarrow> invalid)"

text \<open>
  Lines 175 to 182. For several channels the source fills an uninitialised array
  column by column: \<^verbatim>\<open>interleaved[i::num_channels] = int_samples[:, i]\<close>.
\<close>

definition assign_stride :: "nat \<Rightarrow> nat \<Rightarrow> 'a list \<Rightarrow> 'a list \<Rightarrow> 'a list" where
  "assign_stride i c col out = foldl (\<lambda>acc k. acc[i + k * c := col ! k]) out [0..<length col]"

definition interleave :: "nat \<Rightarrow> 'a \<Rightarrow> 'a list list \<Rightarrow> 'a list" where
  "interleave c filler rows =
     foldl (\<lambda>acc i. assign_stride i c (map (\<lambda>r. r ! i) rows) acc)
       (replicate (length rows * c) filler) [0..<c]"

fun flatten_samples :: "int \<Rightarrow> int ndarray \<Rightarrow> py_error + int list" where
  "flatten_samples num_channels (Arr2 rows) =
     (if num_channels > 1 then Inr (interleave (nat num_channels) 0 rows) else Inr (concat rows))"
| "flatten_samples num_channels (Arr1 xs) =
     (if num_channels > 1 then Inl IndexError else Inr xs)"

text \<open>
  The messages the worker sends through its \<^verbatim>\<open>status\<close> signal, one constructor per
  format string of the source, with the values the string is built from.
\<close>

datatype status_msg =
    NoAudioFiles
  | FoundFiles nat
  | AlreadyExists string
  | CopiedMissingMetadata string
  | Skipping string
  | Processing nat nat string
  | OriginalLoudness pyfloat
  | LimitingGain pyfloat
  | UnsupportedSampleWidth int
  | NormalizedTo pyfloat
  | SavedTrack string
  | ErrorSaving string
  | ErrorLoading string
  | ErrorCheckingMetadata string
  | ErrorCopyingMetadata string string
  | Processed string
  | NormalizationComplete
  | ErrorOccurred py_error

text \<open>
  \<^verbatim>\<open>normalize_audio\<close>, lines 148 to 190, in its two stages. Lines 149 to 161 scale and
  clip the float samples; the result is the exception raised by the conversion, or the
  status messages emitted, the clipped samples and the frame rate.
\<close>

definition normalized_samples ::
  "audio_segment \<Rightarrow> pyfloat \<Rightarrow> pyfloat \<Rightarrow> pyfloat \<Rightarrow>
   py_error + (status_msg list \<times> pyfloat ndarray \<times> int)" where
  "normalized_samples seg loudness target_loudness max_gain_increase =
     (case audiosegment_to_numpy seg of
        Inl e \<Rightarrow> Inl e
      | Inr (smp, rate) \<Rightarrow>
          (let msgs = (if gain_limited loudness target_loudness max_gain_increase
                       then [LimitingGain max_gain_increase] else []);
               loudness_normalized = pyln_normalize_loudness smp loudness
                 (limited_target loudness target_loudness max_gain_increase)
           in Inr (msgs, map_nd fclip loudness_normalized, rate)))"

text \<open>
  Lines 163 to 190 turn the clipped samples into integers of the segment's width, or
  return the segment itself when the width has no integer type.
\<close>

definition requantize ::
  "int \<Rightarrow> audio_segment \<Rightarrow> status_msg list \<Rightarrow> pyfloat ndarray \<Rightarrow> int \<Rightarrow>
   py_error + (status_msg list \<times> audio_segment)" where
  "requantize invalid seg msgs normalized rate =
     (case sample_width_to_dtype (sample_width seg) of
        None \<Rightarrow> Inr (msgs @ [UnsupportedSampleWidth (sample_width seg)], seg)
      | Some bits \<Rightarrow>
          (case py_float (py_pow2 (8 * sample_width seg - 1) - 1) of
             Inl e \<Rightarrow> Inl e
           | Inr max_val \<Rightarrow>
               (let int_samples = map_nd (astype_int bits invalid)
                      (map_nd (\<lambda>x. fmul x (Fin max_val)) normalized)
                in case flatten_samples (channels seg) int_samples of
                     Inl e \<Rightarrow> Inl e
                   | Inr flat \<Rightarrow>
                       Inr (msgs, \<lparr>frame_rate = rate, sample_width = sample_width seg,
                                  channels = channels seg, samples = flat\<rparr>))))"

definition normalize_audio ::
  "int \<Rightarrow> audio_segment \<Rightarrow> pyfloat \<Rightarrow> pyfloat \<Rightarrow> pyfloat \<Rightarrow>
   py_error + (status_msg list \<times> audio_segment)" where
  "normalize_audio invalid seg loudness target_loudness max_gain_increase =
     (case normalized_samples seg loudness target_loudness max_gain_increase of
        Inl e \<Rightarrow> Inl e
      | Inr (msgs, normalized, rate) \<Rightarrow> requantize invalid seg msgs normalized rate)"

text \<open>
  pydub keeps the sample count of a segment a multiple of its channel count; the reshape
  in \<^verbatim>\<open>audiosegment_to_numpy\<close> raises otherwise.
\<close>

definition wf_segment :: "audio_segment \<Rightarrow> bool" where
  "wf_segment seg = (channels seg > 1 \<longrightarrow> length (samples seg) mod nat (channels seg) = 0)"

text \<open>
  What lines 143, 160, 161 and 173 do to one integer sample \<open>s\<close> of a segment of width
  \<open>w\<close>: to float, times the linear gain, clip, times the integer full scale, cast.
\<close>

definition sample_path :: "int \<Rightarrow> int \<Rightarrow> nat \<Rightarrow> pyfloat \<Rightarrow> int \<Rightarrow> int" where
  "sample_path invalid w bits gain s =
     astype_int bits invalid
       (fmul (fclip (fmul gain (Fin (real_of_int s / py_pow2 (8 * w - 1)))))
          (Fin (py_pow2 (8 * w - 1) - 1)))"



section \<open>Paths and file names\<close>

type_synonym path = string

text \<open>\<^verbatim>\<open>os.path.join\<close> and \<^verbatim>\<open>os.path.basename\<close> on POSIX paths.\<close>

definition path_join :: "path \<Rightarrow> string \<Rightarrow> path" where
  "path_join a b =
     (if b \<noteq> [] \<and> hd b = CHR ''/'' then b
      else if a = [] \<or> last a = CHR ''/'' then a @ b
      else a @ ''/'' @ b)"

definition basename :: "path \<Rightarrow> string" where
  "basename p = rev (takeWhile (\<lambda>c. c \<noteq> CHR ''/'') (rev p))"

text \<open>\<^verbatim>\<open>str.lower\<close> on the ASCII letters.\<close>

definition lower_char :: "char \<Rightarrow> char" where
  "lower_char c =
     (if (65 :: nat) \<le> of_char c \<and> (of_char c :: nat) \<le> 90
      then char_of ((of_char c :: nat) + 32) else c)"

definition lower :: "string \<Rightarrow> string" where
  "lower s = map lower_char s"

definition endswith :: "string \<Rightarrow> string \<Rightarrow> bool" where
  "endswith s suf = (length suf \<le> length s \<and> drop (length s - length suf) s = suf)"

definition supported_formats :: "string list" where
  "supported_formats = [''.mp3'', ''.wav'', ''.aiff'', ''.flac'', ''.ogg'', ''.m4a'']"

text \<open>
  \<^verbatim>\<open>Path(p).suffix\<close>: the part of the file name from its last dot, empty when the name
  has no dot, starts with its only dot or ends with a dot.
\<close>

definition suffix_of :: "path \<Rightarrow> string" where
  "suffix_of p =
     (let name = basename p;
          ext = rev (takeWhile (\<lambda>c. c \<noteq> CHR ''.'') (rev name))
      in if CHR ''.'' \<notin> set name \<or> ext = [] \<or> length ext + 1 = length name then []
         else CHR ''.'' # ext)"

text \<open>Lines 194 to 204: the export format for the original file's extension.\<close>

definition format_mapping :: "string \<Rightarrow> string option" where
  "format_mapping ext =
     (if ext = ''mp3'' then Some ''mp3'' else if ext = ''wav'' then Some ''wav''
      else if ext = ''flac'' then Some ''flac'' else if ext = ''ogg'' then Some ''ogg''
      else if ext = ''aiff'' then Some ''aiff'' else if ext = ''aif'' then Some ''aiff''
      else if ext = ''m4a'' then Some ''mp4'' else None)"

definition audio_format :: "path \<Rightarrow> string" where
  "audio_format original_file_path =
     (case format_mapping (lower (drop 1 (suffix_of original_file_path))) of
        None \<Rightarrow> ''wav'' | Some f \<Rightarrow> f)"

section \<open>The normalization worker\<close>

text \<open>
  What the worker thread sends out: status messages, progress values and the
  \<^verbatim>\<open>finished\<close> signal. The calls it makes to the codec and the tag library are logged
  beside them.
\<close>

datatype signal = Status status_msg | Progress int | Finished

datatype call =
    Decode path
  | MeasureLoudness
  | Export audio_segment path string
  | ReadTags path
  | WriteTags path

type_synonym tags = "string \<Rightarrow> string"

text \<open>
  The collaborators outside the source, over a state \<open>'w\<close> of the file system and the tag
  store that only they read and change: \<^verbatim>\<open>os.listdir\<close>, \<^verbatim>\<open>os.path.exists\<close>,
  \<^verbatim>\<open>AudioSegment.from_file\<close>, the loudness meter of pyloudnorm for a rate and samples,
  \<^verbatim>\<open>AudioSegment.export\<close>, \<^verbatim>\<open>music_tag.load_file\<close> and the \<^verbatim>\<open>save\<close> of a tag file (the two
  writers return the exception raised, if any, and the state they leave), and the
  integer NumPy yields for an invalid cast.
\<close>

record 'w env =
  listdir :: "'w \<Rightarrow> path \<Rightarrow> py_error + string list"
  path_exists :: "'w \<Rightarrow> path \<Rightarrow> bool"
  from_file :: "'w \<Rightarrow> path \<Rightarrow> py_error + audio_segment"
  integrated_loudness :: "int \<Rightarrow> pyfloat ndarray \<Rightarrow> py_error + pyfloat"
  export :: "'w \<Rightarrow> audio_segment \<Rightarrow> path \<Rightarrow> string \<Rightarrow> py_error option \<times> 'w"
  load_tags :: "'w \<Rightarrow> path \<Rightarrow> py_error + tags"
  save_tags :: "'w \<Rightarrow> path \<Rightarrow> tags \<Rightarrow> py_error option \<times> 'w"
  cast_invalid :: int

text \<open>The attributes the worker is constructed with (lines 30 to 34).\<close>

record job =
  input_folder :: path
  output_folder :: path
  target_loudness :: pyfloat

text \<open>
  The worker's state: the cancellation flag \<^verbatim>\<open>is_running\<close>, the outside state, and what
  has been emitted and called so far.
\<close>

record 'w worker =
  is_running :: bool
  world :: "'w"
  emitted :: "signal list"
  calls :: "call list"

definition emit :: "signal \<Rightarrow> 'w worker \<Rightarrow> 'w worker" where
  "emit sg s = s\<lparr>emitted := emitted s @ [sg]\<rparr>"

definition status :: "status_msg \<Rightarrow> 'w worker \<Rightarrow> 'w worker" where
  "status m s = emit (Status m) s"

definition called :: "call \<Rightarrow> 'w worker \<Rightarrow> 'w worker" where
  "called c s = s\<lparr>calls := calls s @ [c]\<rparr>"

text \<open>\<^verbatim>\<open>stop\<close>, lines 245 and 246.\<close>

definition stop :: "'w worker \<Rightarrow> 'w worker" where
  "stop s = s\<lparr>is_running := False\<rparr>"

text \<open>\<^verbatim>\<open>get_audio_files\<close>, lines 123 to 127.\<close>

definition get_audio_files :: "'w env \<Rightarrow> 'w \<Rightarrow> path \<Rightarrow> py_error + path list" where
  "get_audio_files env w folder_path =
     (case listdir env w folder_path of
        Inl e \<Rightarrow> Inl e
      | Inr names \<Rightarrow>
          Inr (map (path_join folder_path)
                 (filter (\<lambda>f. list_ex (endswith (lower f)) supported_formats) names)))"

text \<open>\<^verbatim>\<open>load_audio\<close>, lines 129 to 137: \<open>None\<close> after a decoding error.\<close>

definition load_audio :: "'w env \<Rightarrow> path \<Rightarrow> 'w worker \<Rightarrow> audio_segment option \<times> 'w worker" where
  "load_audio env file_path s =
     (case from_file env (world s) file_path of
        Inr audio \<Rightarrow> (Some audio, called (Decode file_path) s)
      | Inl e \<Rightarrow> (None, status (ErrorLoading file_path) (called (Decode file_path) s)))"

text \<open>\<^verbatim>\<open>save_audio\<close>, lines 192 to 212.\<close>

definition save_audio :: "'w env \<Rightarrow> audio_segment \<Rightarrow> path \<Rightarrow> path \<Rightarrow> 'w worker \<Rightarrow> 'w worker" where
  "save_audio env seg output_path original_file_path s =
     (let fmt = audio_format original_file_path;
          s1 = called (Export seg output_path fmt) s
      in case export env (world s) seg output_path fmt of
           (None, w) \<Rightarrow> status (SavedTrack output_path) (s1\<lparr>world := w\<rparr>)
         | (Some e, w) \<Rightarrow> status (ErrorSaving output_path) (s1\<lparr>world := w\<rparr>))"

text \<open>\<^verbatim>\<open>check_metadata\<close>, lines 214 to 222.\<close>

definition check_metadata :: "'w env \<Rightarrow> path \<Rightarrow> 'w worker \<Rightarrow> bool \<times> 'w worker" where
  "check_metadata env file_path s =
     (case load_tags env (world s) file_path of
        Inr f \<Rightarrow> (list_all (\<lambda>tag. f tag \<noteq> []) [''tracktitle'', ''artist'', ''album''],
                  called (ReadTags file_path) s)
      | Inl e \<Rightarrow> (False, status (ErrorCheckingMetadata file_path) (called (ReadTags file_path) s)))"

text \<open>\<^verbatim>\<open>copy_metadata\<close>, lines 224 to 243.\<close>

definition copied_tags :: "tags \<Rightarrow> tags \<Rightarrow> tags" where
  "copied_tags f_input f_output =
     foldl (\<lambda>f tag. if f_input tag \<noteq> [] then f(tag := f_input tag) else f) f_output
       [''tracktitle'', ''artist'', ''album'', ''genre'', ''year'', ''artwork'']"

definition copy_metadata :: "'w env \<Rightarrow> path \<Rightarrow> path \<Rightarrow> 'w worker \<Rightarrow> 'w worker" where
  "copy_metadata env input_path output_path s =
     (case load_tags env (world s) input_path of
        Inl e \<Rightarrow> status (ErrorCopyingMetadata input_path output_path)
                  (called (ReadTags input_path) s)
      | Inr f_input \<Rightarrow>
          (let s1 = called (ReadTags output_path) (called (ReadTags input_path) s)
           in case load_tags env (world s) output_path of
                Inl e \<Rightarrow> status (ErrorCopyingMetadata input_path output_path) s1
              | Inr f_output \<Rightarrow>
                  (let s2 = called (WriteTags output_path) s1
                   in case save_tags env (world s) output_path (copied_tags f_input f_output) of
                        (None, w) \<Rightarrow> s2\<lparr>world := w\<rparr>
                      | (Some e, w) \<Rightarrow>
                          status (ErrorCopyingMetadata input_path output_path)
                            (s2\<lparr>world := w\<rparr>))))"

section \<open>The batch loop\<close>

text \<open>
  \<^verbatim>\<open>run\<close>, lines 37 to 121, as a machine that takes one stage of the source at a time, so
  that a call of \<^verbatim>\<open>stop\<close> from the interface thread can fall between any two stages. The
  control points carry the index of the file in progress (from 0) and the values the
  later stages of that file use.
\<close>

datatype pc =
    AtStart
  | AtLoopHead nat
  | AtExists nat
  | AtCheckMetadata nat
  | AtCopyMissing nat
  | AtLoad nat
  | AtMeasure nat audio_segment
  | AtNormalize nat audio_segment pyfloat
  | AtSave nat audio_segment
  | AtCopyMetadata nat
  | AtProgress nat
  | AtComplete
  | AtError py_error
  | AtFinally
  | Done

record 'w config =
  pc :: pc
  audio_files :: "path list"
  state :: "'w worker"

definition file_path_of :: "'w config \<Rightarrow> nat \<Rightarrow> path" where
  "file_path_of c i = audio_files c ! i"

definition file_name_of :: "'w config \<Rightarrow> nat \<Rightarrow> string" where
  "file_name_of c i = basename (file_path_of c i)"

definition output_path_of :: "job \<Rightarrow> 'w config \<Rightarrow> nat \<Rightarrow> path" where
  "output_path_of jb c i = path_join (output_folder jb) (file_name_of c i)"

text \<open>Line 110: \<^verbatim>\<open>int((idx / total_files) * 100)\<close>.\<close>

definition progress_percent :: "nat \<Rightarrow> nat \<Rightarrow> int" where
  "progress_percent idx total_files = trunc_zero (real idx / real total_files * 100)"

text \<open>
  One stage. The loop head (lines 51 to 53) is the only stage that reads \<^verbatim>\<open>is_running\<close>.
  An exception that no method catches leads to the handler of line 116; \<^verbatim>\<open>normalize_audio\<close>
  is called with its default maximal gain increase of 6.
\<close>

definition step :: "'w env \<Rightarrow> job \<Rightarrow> 'w config \<Rightarrow> 'w config" where
  "step env jb c =
     (let s = state c; total_files = length (audio_files c) in
      case pc c of
        AtStart \<Rightarrow>
          (case get_audio_files env (world s) (input_folder jb) of
             Inl e \<Rightarrow> c\<lparr>pc := AtError e\<rparr>
           | Inr fs \<Rightarrow>
               if length fs = 0
               then c\<lparr>pc := AtFinally, audio_files := fs,
                      state := emit Finished (status NoAudioFiles s)\<rparr>
               else c\<lparr>pc := AtLoopHead 0, audio_files := fs,
                      state := status (FoundFiles (length fs)) s\<rparr>)
      | AtLoopHead i \<Rightarrow>
          if i < total_files \<and> is_running s then c\<lparr>pc := AtExists i\<rparr> else c\<lparr>pc := AtComplete\<rparr>
      | AtExists i \<Rightarrow>
          if path_exists env (world s) (output_path_of jb c i)
          then c\<lparr>pc := AtCheckMetadata i, state := status (AlreadyExists (file_name_of c i)) s\<rparr>
          else c\<lparr>pc := AtLoad i,
                 state := status (Processing (i + 1) total_files (file_name_of c i)) s\<rparr>
      | AtCheckMetadata i \<Rightarrow>
          (case check_metadata env (output_path_of jb c i) s of
             (True, s') \<Rightarrow>
               c\<lparr>pc := AtLoopHead (i + 1), state := status (Skipping (file_name_of c i)) s'\<rparr>
           | (False, s') \<Rightarrow> c\<lparr>pc := AtCopyMissing i, state := s'\<rparr>)
      | AtCopyMissing i \<Rightarrow>
          c\<lparr>pc := AtLoopHead (i + 1),
            state := status (CopiedMissingMetadata (output_path_of jb c i))
              (copy_metadata env (file_path_of c i) (output_path_of jb c i) s)\<rparr>
      | AtLoad i \<Rightarrow>
          (case load_audio env (file_path_of c i) s of
             (None, s') \<Rightarrow> c\<lparr>pc := AtLoopHead (i + 1), state := s'\<rparr>
           | (Some audio, s') \<Rightarrow> c\<lparr>pc := AtMeasure i audio, state := s'\<rparr>)
      | AtMeasure i audio \<Rightarrow>
          (case audiosegment_to_numpy audio of
             Inl e \<Rightarrow> c\<lparr>pc := AtError e\<rparr>
           | Inr (smp, rate) \<Rightarrow>
               (case integrated_loudness env rate smp of
                  Inl e \<Rightarrow> c\<lparr>pc := AtError e, state := called MeasureLoudness s\<rparr>
                | Inr loudness \<Rightarrow>
                    c\<lparr>pc := AtNormalize i audio loudness,
                      state := status (OriginalLoudness loudness) (called MeasureLoudness s)\<rparr>))
      | AtNormalize i audio loudness \<Rightarrow>
          (case normalize_audio (cast_invalid env) audio loudness (target_loudness jb) (Fin 6) of
             Inl e \<Rightarrow> c\<lparr>pc := AtError e\<rparr>
           | Inr (msgs, normalized_audio) \<Rightarrow>
               c\<lparr>pc := AtSave i normalized_audio,
                 state := status (NormalizedTo (target_loudness jb))
                   (foldl (\<lambda>s' m. status m s') s msgs)\<rparr>)
      | AtSave i normalized_audio \<Rightarrow>
          c\<lparr>pc := AtCopyMetadata i,
            state := save_audio env normalized_audio (output_path_of jb c i) (file_path_of c i) s\<rparr>
      | AtCopyMetadata i \<Rightarrow>
          c\<lparr>pc := AtProgress i,
            state := status (Processed (file_name_of c i))
              (copy_metadata env (file_path_of c i) (output_path_of jb c i) s)\<rparr>
      | AtProgress i \<Rightarrow>
          c\<lparr>pc := AtLoopHead (i + 1),
            state := emit (Progress (progress_percent (i + 1) total_files)) s\<rparr>
      | AtComplete \<Rightarrow> c\<lparr>pc := AtFinally, state := status NormalizationComplete s\<rparr>
      | AtError e \<Rightarrow> c\<lparr>pc := AtFinally, state := status (ErrorOccurred e) s\<rparr>
      | AtFinally \<Rightarrow> c\<lparr>pc := Done, state := emit Finished s\<rparr>
      | Done \<Rightarrow> c)"

text \<open>The worker as constructed (line 35 sets the flag) and not yet run.\<close>

definition initial :: "'w \<Rightarrow> 'w config" where
  "initial w = \<lparr>pc = AtStart, audio_files = [],
     state = \<lparr>is_running = True, world = w, emitted = [], calls = []\<rparr>\<rparr>"

text \<open>
  The index of the file a control point belongs to: processing of that file has begun
  and has not yet returned to the loop head.
\<close>

fun in_file :: "pc \<Rightarrow> nat option" where
  "in_file (AtExists i) = Some i"
| "in_file (AtCheckMetadata i) = Some i"
| "in_file (AtCopyMissing i) = Some i"
| "in_file (AtLoad i) = Some i"
| "in_file (AtMeasure i a) = Some i"
| "in_file (AtNormalize i a l) = Some i"
| "in_file (AtSave i a) = Some i"
| "in_file (AtCopyMetadata i) = Some i"
| "in_file (AtProgress i) = Some i"
| "in_file p = None"

text \<open>
  An execution under a schedule of the interface thread: before each stage of the worker,
  \<open>True\<close> means that \<^verbatim>\<open>stop\<close> is called. \<open>run_with_stops\<close> runs one stage per entry;
  \<open>finish_file\<close> does so only while the file in progress has not been left.
\<close>

definition stop_config :: "'w config \<Rightarrow> 'w config" where
  "stop_config c = c\<lparr>state := stop (state c)\<rparr>"

fun run_with_stops :: "'w env \<Rightarrow> job \<Rightarrow> bool list \<Rightarrow> 'w config \<Rightarrow> 'w config" where
  "run_with_stops env jb [] c = c"
| "run_with_stops env jb (b # bs) c =
     run_with_stops env jb bs (step env jb (if b then stop_config c else c))"

fun finish_file :: "'w env \<Rightarrow> job \<Rightarrow> bool list \<Rightarrow> 'w config \<Rightarrow> 'w config" where
  "finish_file env jb [] c = c"
| "finish_file env jb (b # bs) c =
     (if in_file (pc c) = None then c
      else finish_file env jb bs (step env jb (if b then stop_config c else c)))"

text \<open>An upper bound on the stages a file still takes from a control point.\<close>

fun remaining :: "pc \<Rightarrow> nat" where
  "remaining (AtExists i) = 7"
| "remaining (AtLoad i) = 6"
| "remaining (AtMeasure i a) = 5"
| "remaining (AtNormalize i a l) = 4"
| "remaining (AtSave i a) = 3"
| "remaining (AtCopyMetadata i) = 2"
| "remaining (AtCheckMetadata i) = 2"
| "remaining (AtProgress i) = 1"
| "remaining (AtCopyMissing i) = 1"
| "remaining p = 0"

text \<open>
  An upper bound on the stages the whole run still takes from a configuration past the
  discovery of the files: 8 for each file not yet begun, and 3 to leave the loop.
\<close>

definition stages_left :: "'w config \<Rightarrow> nat" where
  "stages_left c =
     (case pc c of
        Done \<Rightarrow> 0
      | AtFinally \<Rightarrow> 1
      | AtComplete \<Rightarrow> 2
      | AtError e \<Rightarrow> 2
      | AtLoopHead i \<Rightarrow> 3 + 8 * (length (audio_files c) - i)
      | AtStart \<Rightarrow> 0
      | p \<Rightarrow> remaining p + 3 + 8 * (length (audio_files c) - Suc (the (in_file p))))"


section \<open>The application window\<close>

text \<open>\<^verbatim>\<open>str.strip\<close> for the ASCII whitespace characters.\<close>

definition is_space :: "char \<Rightarrow> bool" where
  "is_space ch = ((of_char ch :: nat) \<in> {9, 10, 11, 12, 13, 28, 29, 30, 31, 32})"

definition strip :: "string \<Rightarrow> string" where
  "strip s = rev (dropWhile is_space (rev (dropWhile is_space s)))"

text \<open>
  \<^verbatim>\<open>start_normalization\<close>, lines 316 to 355, over \<^verbatim>\<open>os.path.isdir\<close> and Python's \<^verbatim>\<open>float\<close> of a
  string (\<open>None\<close> for ValueError), with the texts of the three input fields. The result
  is the warning box shown, or the attributes of the worker that is created and started.
\<close>

datatype warning_box =
    InvalidInputFolder
  | InvalidOutputFolder
  | LoudnessOutOfRange pyfloat
  | LoudnessNotNumerical

definition start_normalization ::
  "(path \<Rightarrow> bool) \<Rightarrow> (string \<Rightarrow> pyfloat option) \<Rightarrow> string \<Rightarrow> string \<Rightarrow> string \<Rightarrow>
   warning_box + job" where
  "start_normalization isdir float_of input_text output_text loudness_text =
     (let in_folder = strip input_text;
          out_folder = strip output_text;
          target_loudness_str = strip loudness_text
      in if in_folder = [] \<or> \<not> isdir in_folder then Inl InvalidInputFolder
         else if out_folder = [] \<or> \<not> isdir out_folder then Inl InvalidOutputFolder
         else case float_of target_loudness_str of
                None \<Rightarrow> Inl LoudnessNotNumerical
              | Some target \<Rightarrow>
                  if \<not> (fle (Fin (- 60)) target \<and> fle target (Fin 0))
                  then Inl (LoudnessOutOfRange target)
                  else Inr \<lparr>input_folder = in_folder, output_folder = out_folder,
                            target_loudness = target\<rparr>)"

section \<open>An environment to run the model on\<close>

text \<open>
  A folder with two audio files and a text file, a codec that always succeeds, a meter
  that always measures -14 LUFS and a tag store in which only \<^verbatim>\<open>out/b.WAV\<close> lacks tags.
  The outside state is the list of paths that exist in the output folder.
\<close>

definition demo_env :: "path list env" where
  "demo_env = \<lparr>listdir = (\<lambda>w p. Inr [''a.mp3'', ''notes.txt'', ''b.WAV'']),
     path_exists = (\<lambda>w p. p \<in> set w),
     from_file = (\<lambda>w p. Inr \<lparr>frame_rate = 44100, sample_width = 2, channels = 1,
                                samples = [1000, - 1000]\<rparr>),
     integrated_loudness = (\<lambda>r smp. Inr (Fin (- 14))),
     export = (\<lambda>w a p f. (None, p # w)),
     load_tags = (\<lambda>w p. Inr (\<lambda>t. if p = ''out/b.WAV'' then [] else ''x'')),
     save_tags = (\<lambda>w p t. (None, w)),
     cast_invalid = 0\<rparr>"

definition demo_job :: job where
  "demo_job = \<lparr>input_folder = ''in'', output_folder = ''out'', target_loudness = Fin (- 14)\<rparr>"

definition demo_config :: "pc \<Rightarrow> path list \<Rightarrow> path list config" where
  "demo_config p w = \<lparr>pc = p, audio_files = [''in/a.mp3'', ''in/b.WAV''],
     state = \<lparr>is_running = True, world = w, emitted = [], calls = []\<rparr>\<rparr>"

section \<open>Conversion of the full scale to float\<close>

lemma py_float_ok:
  assumes "\<bar>x\<bar> \<le> 2 ^ 1023"
  shows "py_float x = Inr x"
proof -
  define B :: real where "B = 2 ^ 1023"
  define S :: real where "S = 2 ^ 970"
  have "S < B" unfolding S_def B_def by (rule power_strict_increasing) simp_all
  moreover have "(2::real) ^ 1024 = 2 * B" unfolding B_def by (simp only: power_Suc [symmetric]) simp
  moreover have "\<bar>x\<bar> \<le> B" using assms by (simp only: B_def)
  ultimately have "\<not> 2 ^ 1024 - S \<le> \<bar>x\<bar>" by linarith
  then show ?thesis by (simp only: py_float_def S_def if_False)
qed

lemma py_pow2_bound:
  assumes "e \<le> 1023"
  shows "\<bar>py_pow2 e\<bar> \<le> 2 ^ 1023"
proof (cases "0 \<le> e")
  case True
  then have "nat e \<le> 1023" using assms by simp
  then have "(2::real) ^ nat e \<le> 2 ^ 1023" by (intro power_increasing) simp_all
  moreover have "py_pow2 e = 2 ^ nat e" using True by (simp add: py_pow2_def)
  moreover have "(0::real) \<le> 2 ^ nat e" by simp
  ultimately show ?thesis by (simp only: abs_of_nonneg)
next
  case False
  define B :: real where "B = 2 ^ 1023"
  have "1 / (2::real) ^ nat (- e) \<le> 1" by simp
  moreover have "0 \<le> 1 / (2::real) ^ nat (- e)" by simp
  moreover have "1 \<le> B" unfolding B_def by (rule one_le_power) simp
  moreover have "py_pow2 e = 1 / 2 ^ nat (- e)" using False by (simp add: py_pow2_def)
  ultimately have "\<bar>py_pow2 e\<bar> \<le> B" by linarith
  then show ?thesis by (simp only: B_def)
qed

lemma py_float_pow2_width:
  "w \<le> 128 \<Longrightarrow> py_float (py_pow2 (8 * w - 1)) = Inr (py_pow2 (8 * w - 1))"
  by (rule py_float_ok, rule py_pow2_bound) simp

lemma py_float_pow2_overflow:
  assumes "129 \<le> w"
  shows "py_float (py_pow2 (8 * w - 1)) = Inl OverflowError"
proof -
  define S :: real where "S = 2 ^ 970"
  define P :: real where "P = 2 ^ 1024"
  have "1024 \<le> nat (8 * w - 1)" using assms by simp
  then have "P \<le> 2 ^ nat (8 * w - 1)" unfolding P_def by (intro power_increasing) simp_all
  moreover have "0 < S" unfolding S_def by simp
  moreover have "py_pow2 (8 * w - 1) = 2 ^ nat (8 * w - 1)" using assms by (simp add: py_pow2_def)
  moreover have "(0::real) \<le> 2 ^ nat (8 * w - 1)" by simp
  ultimately have "P - S \<le> \<bar>py_pow2 (8 * w - 1)\<bar>" by linarith
  then show ?thesis by (simp only: py_float_def S_def P_def if_True)
qed

lemma py_pow2_nonneg: "0 \<le> e \<Longrightarrow> py_pow2 e = 2 ^ nat e"
  by (simp add: py_pow2_def)

lemma supported_width:
  "sample_width_to_dtype w = Some bits \<Longrightarrow> 1 \<le> w \<and> w \<le> 4 \<and> nat (8 * w - 1) < bits"
  by (auto simp: sample_width_to_dtype_def split: if_splits)

lemma py_float_full_scale:
  assumes "sample_width_to_dtype w = Some bits"
  shows "py_float (py_pow2 (8 * w - 1) - 1) = Inr (py_pow2 (8 * w - 1) - 1)"
proof (rule py_float_ok)
  define B :: real where "B = 2 ^ 1023"
  have w: "1 \<le> w" "w \<le> 4" using supported_width [OF assms] by simp_all
  then have "\<bar>py_pow2 (8 * w - 1)\<bar> \<le> B" unfolding B_def by (intro py_pow2_bound) simp
  moreover have "1 \<le> py_pow2 (8 * w - 1)" using w by (simp add: py_pow2_nonneg)
  ultimately have "\<bar>py_pow2 (8 * w - 1) - 1\<bar> \<le> B" by linarith
  then show "\<bar>py_pow2 (8 * w - 1) - 1\<bar> \<le> 2 ^ 1023" by (simp only: B_def)
qed

lemma audiosegment_to_numpy_ok:
  assumes "sample_width seg \<le> 128"
  shows "audiosegment_to_numpy seg =
     (let fs = map (\<lambda>s. Fin (real_of_int s / py_pow2 (8 * sample_width seg - 1))) (samples seg)
      in if channels seg > 1
         then (case reshape_channels (channels seg) fs of
                 Inl e \<Rightarrow> Inl e
               | Inr rows \<Rightarrow> Inr (Arr2 rows, frame_rate seg))
         else Inr (Arr1 fs, frame_rate seg))"
  by (simp add: audiosegment_to_numpy_def py_float_pow2_width [OF assms])

lemma audiosegment_to_numpy_overflow:
  "129 \<le> sample_width seg \<Longrightarrow> audiosegment_to_numpy seg = Inl OverflowError"
  by (simp add: audiosegment_to_numpy_def py_float_pow2_overflow)

lemma requantize_supported:
  assumes "sample_width_to_dtype (sample_width seg) = Some bits"
  shows "requantize invalid seg msgs normalized rate =
     (let int_samples = map_nd (astype_int bits invalid)
            (map_nd (\<lambda>x. fmul x (Fin (py_pow2 (8 * sample_width seg - 1) - 1))) normalized)
      in case flatten_samples (channels seg) int_samples of
           Inl e \<Rightarrow> Inl e
         | Inr flat \<Rightarrow>
             Inr (msgs, \<lparr>frame_rate = rate, sample_width = sample_width seg,
                        channels = channels seg, samples = flat\<rparr>))"
  by (simp add: requantize_def assms py_float_full_scale [OF assms])

section \<open>Reshaping and interleaving\<close>

lemma stride_index: "i < c \<Longrightarrow> (j = i + m * c) = (j mod c = i \<and> j div c = m)" for i c j m :: nat
  by (metis add.commute div_mult_self3 div_less mod_mult_self3 mod_less mult.commute div_mult_mod_eq add_cancel_left_left less_nat_zero_code)

lemma length_foldl_update: "length (foldl (\<lambda>acc k. acc[f k := g k]) out ks) = length out"
  by (induction ks arbitrary: out) simp_all

lemma length_assign_stride: "length (assign_stride i c col out) = length out"
  by (simp add: assign_stride_def length_foldl_update)

lemma nth_assign_stride_aux:
  assumes "i < c" "j < length out"
  shows "foldl (\<lambda>acc k. acc[i + k * c := col ! k]) out [0..<m] ! j =
         (if j mod c = i \<and> j div c < m then col ! (j div c) else out ! j)"
proof (induction m)
  case 0
  then show ?case by simp
next
  case (Suc m)
  let ?acc = "foldl (\<lambda>acc k. acc[i + k * c := col ! k]) out [0..<m]"
  have len: "length ?acc = length out" by (rule length_foldl_update)
  show ?case
  proof (cases "j = i + m * c")
    case True
    then have "j mod c = i" "j div c = m" using stride_index [OF assms(1), of j m] by simp_all
    moreover have "?acc[i + m * c := col ! m] ! j = col ! m"
      using True assms(2) len by simp
    ultimately show ?thesis by simp
  next
    case False
    then have ne: "\<not> (j mod c = i \<and> j div c = m)"
      using stride_index [OF assms(1), of j m] by simp
    have "?acc[i + m * c := col ! m] ! j = ?acc ! j"
      using False by simp
    then show ?thesis
      using Suc ne by (auto simp: less_Suc_eq)
  qed
qed

lemma nth_assign_stride:
  "i < c \<Longrightarrow> j < length out \<Longrightarrow>
   assign_stride i c col out ! j =
     (if j mod c = i \<and> j div c < length col then col ! (j div c) else out ! j)"
  by (simp add: assign_stride_def nth_assign_stride_aux)

lemma length_interleave_aux:
  "length (foldl (\<lambda>acc i. assign_stride i c (h i) acc) out ks) = length out"
  by (induction ks arbitrary: out) (simp_all add: length_assign_stride)

lemma length_interleave: "length (interleave c d rows) = length rows * c"
  by (simp add: interleave_def length_interleave_aux)

lemma nth_interleave_aux:
  assumes "j < length out" "m \<le> c"
  shows "foldl (\<lambda>acc i. assign_stride i c (map (\<lambda>r. r ! i) rows) acc) out [0..<m] ! j =
         (if j mod c < m \<and> j div c < length rows then rows ! (j div c) ! (j mod c) else out ! j)"
  using assms(2)
proof (induction m)
  case 0
  then show ?case by simp
next
  case (Suc m)
  then show ?case
    using assms(1)
    by (auto simp: nth_assign_stride length_interleave_aux less_Suc_eq)
qed

lemma nth_interleave:
  "j < length rows * c \<Longrightarrow> interleave c d rows ! j = rows ! (j div c) ! (j mod c)"
proof -
  assume j: "j < length rows * c"
  then have c: "0 < c" by (cases c) simp_all
  have "j div c < length rows" using j c by (simp add: less_mult_imp_div_less)
  moreover have "j mod c < c" using c by simp
  ultimately show ?thesis
    using j by (simp add: interleave_def nth_interleave_aux)
qed

lemma length_rows_of: "length (rows_of c xs) = length xs div c"
  by (simp add: rows_of_def)

lemma interleave_rows_of:
  assumes "0 < c" "length xs mod c = 0"
  shows "interleave c d (rows_of c xs) = xs"
proof (rule nth_equalityI)
  show len: "length (interleave c d (rows_of c xs)) = length xs"
    using assms by (simp add: length_interleave length_rows_of mod_eq_0_iff_dvd)
  fix j assume "j < length (interleave c d (rows_of c xs))"
  then have j: "j < length xs" using len by simp
  have jd: "j div c < length xs div c"
    using j assms by (metis div_mult_mod_eq add.right_neutral less_mult_imp_div_less)
  have "j mod c < c" using assms by simp
  moreover have "drop (j div c * c) xs ! (j mod c) = xs ! (j div c * c + j mod c)"
  proof (rule nth_drop)
    have "j div c * c \<le> j" by simp
    then show "j div c * c \<le> length xs" using j by linarith
  qed
  ultimately have "rows_of c xs ! (j div c) ! (j mod c) = xs ! j"
    using jd by (simp add: rows_of_def)
  moreover have "j < length (rows_of c xs) * c"
    using j assms by (simp add: length_rows_of mod_eq_0_iff_dvd)
  ultimately show "interleave c d (rows_of c xs) ! j = xs ! j"
    by (simp add: nth_interleave)
qed

lemma rows_of_map: "rows_of c (map f xs) = map (map f) (rows_of c xs)"
  by (simp add: rows_of_def take_map drop_map)

lemma map_nd_rows_of: "map_nd f (Arr2 (rows_of c xs)) = Arr2 (rows_of c (map f xs))"
  by (simp add: rows_of_map)


section \<open>The gain\<close>

lemma map_nd_map_nd: "map_nd f (map_nd g a) = map_nd (\<lambda>x. f (g x)) a"
  by (cases a) (simp_all add: comp_def)

lemma gain_limited_Fin: "gain_limited (Fin L) (Fin T) (Fin M) = (M < T - L)"
  by (simp add: gain_limited_def fsub_def)

lemma applied_gain_db_Fin:
  "applied_gain_db (Fin L) (Fin T) (Fin M) = Fin (if T - L \<le> M then T - L else M)"
  by (simp add: applied_gain_db_def delta_loudness_def limited_target_def gain_limited_Fin
        fsub_def)

text \<open>The float stage scales every sample by the linear gain of \<open>applied_gain_db\<close>.\<close>

lemma normalized_samples_gain:
  "normalized_samples seg loudness target max_gain =
     (case audiosegment_to_numpy seg of
        Inl e \<Rightarrow> Inl e
      | Inr (smp, rate) \<Rightarrow>
          Inr (if gain_limited loudness target max_gain then [LimitingGain max_gain] else [],
               map_nd (\<lambda>x. fclip (fmul (linear_gain (applied_gain_db loudness target max_gain)) x))
                 smp,
               rate))"
  by (simp add: normalized_samples_def pyln_normalize_loudness_def applied_gain_db_def Let_def
        map_nd_map_nd split: sum.splits prod.splits)

lemma linear_gain_zero: "linear_gain (Fin 0) = Fin 1"
  by (simp add: linear_gain_def)





section \<open>normalize_audio by sample width\<close>

lemma normalize_audio_supported:
  assumes wf: "wf_segment seg"
    and dt: "sample_width_to_dtype (sample_width seg) = Some bits"
  shows "normalize_audio invalid seg L T M =
     Inr (if gain_limited L T M then [LimitingGain M] else [],
          seg\<lparr>samples := map (sample_path invalid (sample_width seg) bits
                  (linear_gain (applied_gain_db L T M))) (samples seg)\<rparr>)"
proof -
  let ?q = "sample_path invalid (sample_width seg) bits (linear_gain (applied_gain_db L T M))"
  have w128: "sample_width seg \<le> 128" using supported_width [OF dt] by simp
  have rec: "\<lparr>frame_rate = frame_rate seg, sample_width = sample_width seg,
      channels = channels seg, samples = ys\<rparr> = seg\<lparr>samples := ys\<rparr>" for ys
    by (cases seg) simp
  have q: "(\<lambda>x. astype_int bits invalid
      (fmul (fclip (fmul (linear_gain (applied_gain_db L T M))
          (Fin (real_of_int x / py_pow2 (8 * sample_width seg - 1)))))
        (Fin (py_pow2 (8 * sample_width seg - 1) - 1)))) = ?q"
    by (rule ext) (simp add: sample_path_def)
  show ?thesis
  proof (cases "channels seg > 1")
    case True
    then have c: "0 < nat (channels seg)" by simp
    have m: "length (map ?q (samples seg)) mod nat (channels seg) = 0"
      using wf True by (simp add: wf_segment_def)
    have "interleave (nat (channels seg)) 0 (rows_of (nat (channels seg)) (map ?q (samples seg)))
        = map ?q (samples seg)"
      by (rule interleave_rows_of [OF c m])
    then show ?thesis
      using True m dt
      by (simp add: normalize_audio_def normalized_samples_gain audiosegment_to_numpy_ok [OF w128]
          reshape_channels_def requantize_supported [OF dt] Let_def map_nd_map_nd
          rows_of_map [symmetric]
          comp_def rec q)
  next
    case False
    then show ?thesis
      using dt
      by (simp add: normalize_audio_def normalized_samples_gain audiosegment_to_numpy_ok [OF w128]
          requantize_supported [OF dt] Let_def comp_def rec q)
  qed
qed



lemma audiosegment_to_numpy_returns:
  assumes "audiosegment_to_numpy seg = Inr r"
  shows "wf_segment seg \<and> sample_width seg \<le> 128"
proof -
  have ok: "sample_width seg \<le> 128"
  proof (rule ccontr)
    assume "\<not> sample_width seg \<le> 128"
    then have "audiosegment_to_numpy seg = Inl OverflowError"
      by (intro audiosegment_to_numpy_overflow) simp
    then show False using assms by simp
  qed
  have "wf_segment seg"
    using assms
    by (auto simp: audiosegment_to_numpy_ok [OF ok] reshape_channels_def wf_segment_def Let_def
        split: if_splits)
  then show ?thesis using ok by simp
qed

lemma normalize_audio_returns:
  assumes "normalize_audio invalid seg L T M = Inr r"
  shows "wf_segment seg \<and> sample_width seg \<le> 128"
proof (cases "audiosegment_to_numpy seg")
  case (Inl e)
  then have "normalize_audio invalid seg L T M = Inl e"
    by (simp add: normalize_audio_def normalized_samples_gain)
  then show ?thesis using assms by simp
next
  case (Inr r')
  then show ?thesis by (rule audiosegment_to_numpy_returns)
qed


section \<open>Round trip and format\<close>

lemma trunc_zero_near: "\<bar>real_of_int (trunc_zero x) - x\<bar> < 1"
  by (simp add: trunc_zero_def) linarith

lemma trunc_zero_abs_le: "\<bar>x\<bar> \<le> real_of_int n \<Longrightarrow> \<bar>trunc_zero x\<bar> \<le> n"
  by (simp add: trunc_zero_def abs_le_iff floor_le_iff le_floor_iff ceiling_le_iff le_ceiling_iff) linarith

lemma sample_path_16_roundtrip:
  assumes "- 32768 \<le> s" "s \<le> 32767"
  shows "\<bar>sample_path invalid 2 16 (Fin 1) s - s\<bar> \<le> 1"
proof -
  let ?y = "real_of_int s / 32768 * 32767"
  have clip: "min (max (real_of_int s / 32768) (- 1)) 1 = real_of_int s / 32768"
    using assms by simp
  have ys: "\<bar>?y - real_of_int s\<bar> \<le> 1" using assms by (simp add: abs_le_iff)
  have yb: "\<bar>?y\<bar> \<le> real_of_int 32767" using assms by (simp add: abs_le_iff)
  have tb: "\<bar>trunc_zero ?y\<bar> \<le> 32767" by (rule trunc_zero_abs_le [OF yb])
  have "\<bar>real_of_int (trunc_zero ?y) - real_of_int s\<bar> < 2"
    using trunc_zero_near [of ?y] ys by linarith
  then have near: "\<bar>trunc_zero ?y - s\<bar> \<le> 1" by linarith
  have "sample_path invalid 2 16 (Fin 1) s = trunc_zero ?y"
    using tb by (simp add: sample_path_def py_pow2_nonneg astype_int_def clip abs_le_iff)
  then show ?thesis using near by simp
qed

text \<open>
  C3. A 16-bit segment whose samples lie in \<open>[-32768, 32767]\<close>, normalized with zero
  applied gain, comes back with every sample within one unit of the original: dividing
  by \<open>2^15\<close>, multiplying by \<open>2^15 - 1\<close> and truncating moves a sample by at most one.
\<close>

theorem sixteen_bit_round_trip:
  assumes "sample_width seg = 2"
    and "\<forall>s \<in> set (samples seg). - 32768 \<le> s \<and> s \<le> 32767"
    and "applied_gain_db L T M = Fin 0"
  shows "(\<forall>msgs out. normalize_audio invalid seg L T M = Inr (msgs, out) \<longrightarrow>
        length (samples out) = length (samples seg)
        \<and> (\<forall>i < length (samples seg). \<bar>samples out ! i - samples seg ! i\<bar> \<le> 1))
     \<and> (wf_segment seg \<longrightarrow> (\<exists>msgs out. normalize_audio invalid seg L T M = Inr (msgs, out)))
     \<and> (\<forall>s. - 32768 \<le> s \<and> s \<le> 32767 \<longrightarrow>
          \<bar>sample_path invalid 2 16 (linear_gain (applied_gain_db L T M)) s - s\<bar> \<le> 1)"
proof -
  have dt: "sample_width_to_dtype (sample_width seg) = Some 16"
    using assms(1) by (simp add: sample_width_to_dtype_def)
  have near: "\<bar>sample_path invalid 2 16 (Fin 1) (samples seg ! i) - samples seg ! i\<bar> \<le> 1"
    if "i < length (samples seg)" for i
    using assms(2) that by (intro sample_path_16_roundtrip) (simp_all add: nth_mem)
  have wf: "length (samples out) = length (samples seg)
        \<and> (\<forall>i < length (samples seg). \<bar>samples out ! i - samples seg ! i\<bar> \<le> 1)"
    if "normalize_audio invalid seg L T M = Inr (msgs, out)" for msgs out
  proof -
    have "wf_segment seg" using that normalize_audio_returns by blast
    then show ?thesis
      using normalize_audio_supported [OF _ dt, of invalid L T M] that near assms(1,3)
      by (simp add: linear_gain_zero)
  qed
  have ex: "\<exists>msgs out. normalize_audio invalid seg L T M = Inr (msgs, out)" if "wf_segment seg"
    using normalize_audio_supported [OF that dt, of invalid L T M] by simp
  have one: "\<bar>sample_path invalid 2 16 (linear_gain (applied_gain_db L T M)) s - s\<bar> \<le> 1"
    if "- 32768 \<le> s \<and> s \<le> 32767" for s
    using that sample_path_16_roundtrip [of s invalid] assms(3) by (simp add: linear_gain_zero)
  show ?thesis using wf ex one by blast
qed

theorem sixteen_bit_round_trip_witness:
  "\<exists>msgs out.
     normalize_audio 0 \<lparr>frame_rate = 44100, sample_width = 2, channels = 1,
        samples = [- 32768, - 1, 0, 1, 32767]\<rparr> (Fin (- 7)) (Fin (- 7)) (Fin 6) = Inr (msgs, out)
     \<and> length (samples out) = length [- 32768, - 1, 0, 1, 32767 :: int]
     \<and> list_all2 (\<lambda>a b. \<bar>a - b\<bar> \<le> 1) (samples out) [- 32768, - 1, 0, 1, 32767]
     \<and> \<bar>sample_path 0 2 16 (linear_gain (applied_gain_db (Fin (- 7)) (Fin (- 7)) (Fin 6)))
           (- 32768) - (- 32768)\<bar> \<le> 1"
  using sixteen_bit_round_trip [of "\<lparr>frame_rate = 44100, sample_width = 2, channels = 1,
        samples = [- 32768, - 1, 0, 1, 32767]\<rparr>" "Fin (- 7)" "Fin (- 7)" "Fin 6" 0]
  by (auto simp: wf_segment_def applied_gain_db_Fin list_all2_conv_all_nth)



section \<open>Clip and integer range\<close>








section \<open>The silence sentinel\<close>







section \<open>Cancellation and the stages of a file\<close>

lemma stop_simps [simp]:
  "world (stop s) = world s" "emitted (stop s) = emitted s" "calls (stop s) = calls s"
  "is_running (stop s) = False"
  by (simp_all add: stop_def)

lemma stop_commutes:
  "status m (stop s) = stop (status m s)"
  "emit sg (stop s) = stop (emit sg s)"
  "called k (stop s) = stop (called k s)"
  by (simp_all add: stop_def status_def emit_def called_def)

lemma foldl_status_stop:
  "foldl (\<lambda>s' m. status m s') (stop s) msgs = stop (foldl (\<lambda>s' m. status m s') s msgs)"
  by (induction msgs arbitrary: s) (simp_all add: stop_commutes)

lemma load_audio_stop:
  "load_audio env p (stop s) = (fst (load_audio env p s), stop (snd (load_audio env p s)))"
  by (simp add: load_audio_def stop_commutes split: sum.splits)

lemma save_audio_stop: "save_audio env a p q (stop s) = stop (save_audio env a p q s)"
  by (simp add: save_audio_def Let_def stop_def status_def emit_def called_def
      split: prod.splits option.splits)

lemma check_metadata_stop:
  "check_metadata env p (stop s) = (fst (check_metadata env p s), stop (snd (check_metadata env p s)))"
  by (simp add: check_metadata_def stop_commutes split: sum.splits)

lemma copy_metadata_stop: "copy_metadata env p q (stop s) = stop (copy_metadata env p q s)"
  by (simp add: copy_metadata_def Let_def stop_def status_def emit_def called_def
      split: sum.splits prod.splits option.splits)

lemma paths_stop [simp]:
  "file_path_of (stop_config c) i = file_path_of c i"
  "file_name_of (stop_config c) i = file_name_of c i"
  "output_path_of jb (stop_config c) i = output_path_of jb c i"
  by (simp_all add: file_path_of_def file_name_of_def output_path_of_def stop_config_def)

lemma step_stop_commute:
  assumes "in_file (pc c) = Some i"
  shows "step env jb (stop_config c) = stop_config (step env jb c)"
proof (cases "pc c")
  case (AtExists j)
  then show ?thesis
    by (simp add: step_def Let_def stop_config_def stop_commutes file_path_of_def file_name_of_def output_path_of_def)
next
  case (AtCheckMetadata j)
  then show ?thesis
    by (simp add: step_def Let_def stop_config_def stop_commutes check_metadata_stop
        file_path_of_def file_name_of_def output_path_of_def split: prod.splits bool.splits)
next
  case (AtCopyMissing j)
  then show ?thesis
    by (simp add: step_def Let_def stop_config_def stop_commutes copy_metadata_stop
        file_path_of_def file_name_of_def output_path_of_def)
next
  case (AtLoad j)
  then show ?thesis
    by (simp add: step_def Let_def stop_config_def stop_commutes load_audio_stop
        file_path_of_def file_name_of_def output_path_of_def split: prod.splits option.splits)
next
  case (AtMeasure j a)
  then show ?thesis
    by (simp add: step_def Let_def stop_config_def stop_commutes split: sum.splits prod.splits)
next
  case (AtNormalize j a l)
  then show ?thesis
    by (simp add: step_def Let_def stop_config_def stop_commutes foldl_status_stop
        split: sum.splits prod.splits)
next
  case (AtSave j a)
  then show ?thesis
    by (simp add: step_def Let_def stop_config_def stop_commutes save_audio_stop
        file_path_of_def file_name_of_def output_path_of_def)
next
  case (AtCopyMetadata j)
  then show ?thesis
    by (simp add: step_def Let_def stop_config_def stop_commutes copy_metadata_stop
        file_path_of_def file_name_of_def output_path_of_def)
next
  case (AtProgress j)
  then show ?thesis
    by (simp add: step_def Let_def stop_config_def stop_commutes)
qed (use assms in simp_all)

lemma step_in_file:
  assumes "in_file (pc c) = Some i"
  shows "(in_file (pc (step env jb c)) = Some i \<and> remaining (pc (step env jb c)) < remaining (pc c))
       \<or> pc (step env jb c) = AtLoopHead (Suc i) \<or> (\<exists>e. pc (step env jb c) = AtError e)"
  using assms
  by (cases "pc c")
     (auto simp: step_def Let_def split: sum.splits prod.splits option.splits bool.splits)

lemma stop_config_simps [simp]:
  "pc (stop_config c) = pc c" "audio_files (stop_config c) = audio_files c"
  "stop_config (stop_config c) = stop_config c"
  "is_running (state (stop_config c)) = False"
  by (simp_all add: stop_config_def stop_def)

lemma finish_file_stop_config:
  "finish_file env jb bs (stop_config c) = stop_config (finish_file env jb bs c)"
proof (induction bs arbitrary: c)
  case Nil
  then show ?case by simp
next
  case (Cons b bs)
  show ?case
  proof (cases "in_file (pc c)")
    case None
    then show ?thesis by simp
  next
    case (Some i)
    then show ?thesis
      using Cons.IH [of "step env jb c"] by (simp add: step_stop_commute [OF Some])
  qed
qed

lemma finish_file_modulo_stop:
  "stop_config (finish_file env jb bs c) = stop_config (finish_file env jb (map (\<lambda>b. False) bs) c)"
proof (induction bs arbitrary: c)
  case Nil
  then show ?case by simp
next
  case (Cons b bs)
  show ?case
  proof (cases "in_file (pc c)")
    case None
    then show ?thesis by simp
  next
    case (Some i)
    then show ?thesis
      using Cons.IH [of "step env jb c"]
      by (simp add: step_stop_commute [OF Some] finish_file_stop_config)
  qed
qed

lemma finish_file_completes:
  assumes "in_file (pc c) = Some i" and "remaining (pc c) \<le> length bs"
  shows "pc (finish_file env jb bs c) = AtLoopHead (Suc i)
       \<or> (\<exists>e. pc (finish_file env jb bs c) = AtError e)"
  using assms
proof (induction bs arbitrary: c)
  case Nil
  then show ?case by (cases "pc c") simp_all
next
  case (Cons b bs)
  let ?d = "step env jb c"
  let ?c1 = "step env jb (if b then stop_config c else c)"
  have c1: "pc ?c1 = pc ?d"
    by (simp add: step_stop_commute [OF Cons.prems(1)])
  have fin: "finish_file env jb (b # bs) c = finish_file env jb bs ?c1"
    using Cons.prems(1) by simp
  consider "in_file (pc ?d) = Some i" "remaining (pc ?d) < remaining (pc c)"
    | "pc ?d = AtLoopHead (Suc i)" | e where "pc ?d = AtError e"
    using step_in_file [OF Cons.prems(1), of env jb] by blast
  then show ?case
  proof cases
    case 1
    then have "in_file (pc ?c1) = Some i" "remaining (pc ?c1) \<le> length bs"
      using c1 Cons.prems(2) by simp_all
    then show ?thesis unfolding fin by (rule Cons.IH)
  next
    case 2
    then have "finish_file env jb bs ?c1 = ?c1" using c1 by (cases bs) simp_all
    then show ?thesis unfolding fin using 2 c1 by simp
  next
    case 3
    then have "finish_file env jb bs ?c1 = ?c1" using c1 by (cases bs) simp_all
    then show ?thesis unfolding fin using 3 c1 by simp
  qed
qed

lemma is_running_methods [simp]:
  "is_running (status m s) = is_running s"
  "is_running (emit sg s) = is_running s"
  "is_running (called k s) = is_running s"
  "is_running (snd (load_audio env p s)) = is_running s"
  "is_running (save_audio env a p q s) = is_running s"
  "is_running (snd (check_metadata env p s)) = is_running s"
  "is_running (copy_metadata env p q s) = is_running s"
  "is_running (foldl (\<lambda>s' m. status m s') s msgs) = is_running s"
proof -
  show a: "is_running (status m s) = is_running s" for m and s :: "'a worker"
    by (simp add: status_def emit_def)
  show "is_running (emit sg s) = is_running s" by (simp add: emit_def)
  show b: "is_running (called k s) = is_running s" for k and s :: "'a worker"
    by (simp add: called_def)
  show "is_running (snd (load_audio env p s)) = is_running s"
    by (simp add: load_audio_def a b split: sum.splits)
  show "is_running (save_audio env a p q s) = is_running s"
    by (simp add: save_audio_def Let_def a b split: prod.splits option.splits)
  show "is_running (snd (check_metadata env p s)) = is_running s"
    by (simp add: check_metadata_def a b split: sum.splits)
  show "is_running (copy_metadata env p q s) = is_running s"
    by (simp add: copy_metadata_def Let_def a b split: sum.splits prod.splits option.splits)
  show "is_running (foldl (\<lambda>s' m. status m s') s msgs) = is_running s"
    by (induction msgs arbitrary: s) (simp_all add: a)
qed

lemma step_AtCheckMetadata:
  "pc c = AtCheckMetadata i \<Longrightarrow> step env jb c =
     (if fst (check_metadata env (output_path_of jb c i) (state c))
      then c\<lparr>pc := AtLoopHead (i + 1),
             state := status (Skipping (file_name_of c i))
               (snd (check_metadata env (output_path_of jb c i) (state c)))\<rparr>
      else c\<lparr>pc := AtCopyMissing i,
             state := snd (check_metadata env (output_path_of jb c i) (state c))\<rparr>)"
  by (simp add: step_def Let_def split: prod.splits bool.splits)

lemma step_AtLoad:
  "pc c = AtLoad i \<Longrightarrow> step env jb c =
     (case fst (load_audio env (file_path_of c i) (state c)) of
        None \<Rightarrow> c\<lparr>pc := AtLoopHead (i + 1),
                   state := snd (load_audio env (file_path_of c i) (state c))\<rparr>
      | Some audio \<Rightarrow> c\<lparr>pc := AtMeasure i audio,
                   state := snd (load_audio env (file_path_of c i) (state c))\<rparr>)"
  by (simp add: step_def Let_def split: prod.splits option.splits)

lemma step_is_running: "is_running (state (step env jb c)) = is_running (state c)"
proof (cases "pc c")
  case (AtCheckMetadata i)
  then show ?thesis by (simp add: step_AtCheckMetadata)
next
  case (AtLoad i)
  then show ?thesis by (simp add: step_AtLoad split: option.splits)
qed (simp_all add: step_def Let_def split: sum.splits prod.splits)

lemma step_stopped:
  assumes "\<not> is_running (state c)" and "in_file (pc c) = None \<or> in_file (pc c) = Some i"
  shows "in_file (pc (step env jb c)) = None \<or> in_file (pc (step env jb c)) = Some i"
proof (cases "in_file (pc c)")
  case None
  then show ?thesis
    using assms(1)
    by (cases "pc c") (auto simp: step_def Let_def split: sum.splits)
next
  case (Some j)
  then have "j = i" using assms(2) by simp
  then show ?thesis
    using step_in_file [of c i env jb] Some by auto
qed

lemma run_with_stops_stopped:
  assumes "\<not> is_running (state c)" and "in_file (pc c) = None \<or> in_file (pc c) = Some i"
  shows "in_file (pc (run_with_stops env jb bs c)) = None
       \<or> in_file (pc (run_with_stops env jb bs c)) = Some i"
  using assms
proof (induction bs arbitrary: c)
  case Nil
  then show ?case by simp
next
  case (Cons b bs)
  let ?c0 = "if b then stop_config c else c"
  have "\<not> is_running (state ?c0)" using Cons.prems(1) by simp
  moreover have "in_file (pc ?c0) = None \<or> in_file (pc ?c0) = Some i"
    using Cons.prems(2) by simp
  ultimately have "\<not> is_running (state (step env jb ?c0))"
    and "in_file (pc (step env jb ?c0)) = None \<or> in_file (pc (step env jb ?c0)) = Some i"
    by (simp_all only: step_is_running step_stopped not_False_eq_True)
  then show ?case using Cons.IH [of "step env jb ?c0"] by simp
qed

section \<open>The stages after decoding\<close>

lemma step_audio_files: "pc c \<noteq> AtStart \<Longrightarrow> audio_files (step env jb c) = audio_files c"
  by (cases "pc c")
     (simp_all add: step_def Let_def split: sum.splits prod.splits option.splits bool.splits)









lemma paths_upd [simp]:
  "file_path_of (c\<lparr>pc := p\<rparr>) i = file_path_of c i"
  "file_path_of (c\<lparr>state := s\<rparr>) i = file_path_of c i"
  "file_name_of (c\<lparr>pc := p\<rparr>) i = file_name_of c i"
  "file_name_of (c\<lparr>state := s\<rparr>) i = file_name_of c i"
  "output_path_of jb (c\<lparr>pc := p\<rparr>) i = output_path_of jb c i"
  "output_path_of jb (c\<lparr>state := s\<rparr>) i = output_path_of jb c i"
  by (simp_all add: file_path_of_def file_name_of_def output_path_of_def)

lemma log_simps [simp]:
  "calls (status m s) = calls s" "world (status m s) = world s"
  "emitted (status m s) = emitted s @ [Status m]"
  "calls (emit sg s) = calls s" "world (emit sg s) = world s"
  "emitted (emit sg s) = emitted s @ [sg]"
  "calls (called k s) = calls s @ [k]" "world (called k s) = world s"
  "emitted (called k s) = emitted s"
  by (simp_all add: status_def emit_def called_def)







section \<open>The stages of an existing output file\<close>








section \<open>Validation of the configuration\<close>

text \<open>
  C9. When the input folder or the output folder is not an existing directory, or the
  target loudness is not a number in \<open>[-60, 0]\<close>, \<^verbatim>\<open>start_normalization\<close> shows a warning
  and returns before a worker is created.
\<close>

theorem invalid_configuration_rejected:
  assumes "\<not> isdir (strip input_text) \<or> \<not> isdir (strip output_text)
     \<or> (\<forall>t. float_of (strip loudness_text) = Some t \<longrightarrow>
           \<not> (fle (Fin (- 60)) t \<and> fle t (Fin 0)))"
  shows "\<exists>w. start_normalization isdir float_of input_text output_text loudness_text = Inl w"
  using assms
  by (auto simp: start_normalization_def Let_def split: option.splits)

theorem invalid_configuration_rejected_witness:
  "\<exists>w. start_normalization (\<lambda>p. p = ''music'') (\<lambda>s. if s = ''5'' then Some (Fin 5) else None)
      '' music'' ''music '' '' 5 '' = Inl w"
  using invalid_configuration_rejected [of "\<lambda>p. p = ''music''" "'' music''" "''music ''"
      "\<lambda>s. if s = ''5'' then Some (Fin 5) else None" "'' 5 ''"]
  by (simp add: strip_def is_space_def)

lemma start_normalization_accepts:
  "start_normalization isdir float_of input_text output_text loudness_text = Inr jb \<Longrightarrow>
   isdir (input_folder jb) \<and> isdir (output_folder jb)
   \<and> (\<exists>r. target_loudness jb = Fin r \<and> - 60 \<le> r \<and> r \<le> 0)"
  by (cases "float_of (strip loudness_text)"; cases "the (float_of (strip loudness_text))")
     (auto simp: start_normalization_def Let_def split: if_splits)

section \<open>Executions under a schedule of stop calls\<close>

lemma run_with_stops_append:
  "run_with_stops env jb (xs @ ys) c = run_with_stops env jb ys (run_with_stops env jb xs c)"
  by (induction xs arbitrary: c) simp_all

lemma remaining_le: "remaining p \<le> 7"
  by (cases p) simp_all

text \<open>
  C8. Under every schedule of \<^verbatim>\<open>stop\<close> calls, a file whose processing has begun runs to
  the loop head of the next file or to the error handler, and does what it does without
  any call of \<^verbatim>\<open>stop\<close>, the flag apart. After a call of \<^verbatim>\<open>stop\<close> the worker is only ever
  in the file it was in at the call, or in none.
\<close>

theorem stop_only_between_files:
  assumes "in_file (pc c) = Some i" and "7 \<le> length bs"
  shows "(pc (finish_file env jb bs c) = AtLoopHead (Suc i)
          \<or> (\<exists>e. pc (finish_file env jb bs c) = AtError e))
     \<and> stop_config (finish_file env jb bs c)
         = stop_config (finish_file env jb (map (\<lambda>b. False) bs) c)
     \<and> (in_file (pc (run_with_stops env jb (bs1 @ True # bs2) c0)) = None
          \<or> in_file (pc (run_with_stops env jb (bs1 @ True # bs2) c0))
              = in_file (pc (run_with_stops env jb bs1 c0)))"
proof -
  have r: "remaining (pc c) \<le> length bs"
    using remaining_le [of "pc c"] assms(2) by linarith
  let ?c1 = "run_with_stops env jb bs1 c0"
  let ?c2 = "step env jb (stop_config ?c1)"
  have run: "run_with_stops env jb (bs1 @ True # bs2) c0 = run_with_stops env jb bs2 ?c2"
    by (simp add: run_with_stops_append)
  have flag: "\<not> is_running (state ?c2)"
    by (simp add: step_is_running)
  have later: "in_file (pc (run_with_stops env jb bs2 ?c2)) = None
      \<or> in_file (pc (run_with_stops env jb bs2 ?c2)) = in_file (pc ?c1)"
  proof (cases "in_file (pc ?c1)")
    case None
    then have "in_file (pc ?c2) = None \<or> in_file (pc ?c2) = Some 0"
      by (intro step_stopped) simp_all
    moreover have "in_file (pc ?c2) = None \<or> in_file (pc ?c2) = Some 1"
      using None by (intro step_stopped) simp_all
    ultimately have n: "in_file (pc ?c2) = None" by auto
    have "in_file (pc (run_with_stops env jb bs2 ?c2)) = None
        \<or> in_file (pc (run_with_stops env jb bs2 ?c2)) = Some 0"
      using flag n by (intro run_with_stops_stopped) simp_all
    moreover have "in_file (pc (run_with_stops env jb bs2 ?c2)) = None
        \<or> in_file (pc (run_with_stops env jb bs2 ?c2)) = Some 1"
      using flag n by (intro run_with_stops_stopped) simp_all
    ultimately show ?thesis by auto
  next
    case (Some j)
    then have "in_file (pc ?c2) = None \<or> in_file (pc ?c2) = Some j"
      by (intro step_stopped) simp_all
    then show ?thesis
      unfolding Some using flag by (intro run_with_stops_stopped)
  qed
  show ?thesis
    using finish_file_completes [OF assms(1) r, of env jb]
      finish_file_modulo_stop [of env jb bs c] later
    unfolding run by blast
qed

theorem stop_only_between_files_witness:
  "(pc (finish_file demo_env demo_job [False, True, False, False, False, False, False]
          (demo_config (AtExists 0) [])) = AtLoopHead (Suc 0)
      \<or> (\<exists>e. pc (finish_file demo_env demo_job [False, True, False, False, False, False, False]
          (demo_config (AtExists 0) [])) = AtError e))
   \<and> stop_config (finish_file demo_env demo_job [False, True, False, False, False, False, False]
          (demo_config (AtExists 0) []))
       = stop_config (finish_file demo_env demo_job
          (map (\<lambda>b. False) [False, True, False, False, False, False, False])
          (demo_config (AtExists 0) []))
   \<and> (in_file (pc (run_with_stops demo_env demo_job ([False, False, False] @ True # [False, False,
          False, False, False, False, False, False]) (demo_config AtStart []))) = None
        \<or> in_file (pc (run_with_stops demo_env demo_job ([False, False, False] @ True # [False, False,
          False, False, False, False, False, False]) (demo_config AtStart [])))
            = in_file (pc (run_with_stops demo_env demo_job [False, False, False]
                (demo_config AtStart []))))"
  by (rule stop_only_between_files) (simp_all add: demo_config_def)

section \<open>Termination of the run\<close>

text \<open>
  Under every schedule of \<^verbatim>\<open>stop\<close> calls the run reaches its end, where \<^verbatim>\<open>finished\<close> has been
  emitted, within the stages counted by \<open>stages_left\<close>.
\<close>

lemma stages_left_stop: "stages_left (stop_config c) = stages_left c"
  by (cases "pc c") (simp_all add: stages_left_def)

lemma stages_left_step:
  assumes "pc c \<noteq> Done" "pc c \<noteq> AtStart"
  shows "stages_left (step env jb c) < stages_left c \<and> pc (step env jb c) \<noteq> AtStart"
proof (cases "in_file (pc c)")
  case (Some i)
  have f: "audio_files (step env jb c) = audio_files c"
    using assms(2) by (rule step_audio_files)
  have r: "0 < remaining (pc c)" using Some by (cases "pc c") simp_all
  have sl: "stages_left c = remaining (pc c) + 3 + 8 * (length (audio_files c) - Suc i)"
    using Some by (cases "pc c") (simp_all add: stages_left_def)
  consider "in_file (pc (step env jb c)) = Some i"
      "remaining (pc (step env jb c)) < remaining (pc c)"
    | "pc (step env jb c) = AtLoopHead (Suc i)" | e where "pc (step env jb c) = AtError e"
    using step_in_file [OF Some, of env jb] by blast
  then show ?thesis
  proof cases
    case 1
    then have "stages_left (step env jb c)
        = remaining (pc (step env jb c)) + 3 + 8 * (length (audio_files c) - Suc i)"
      using f by (cases "pc (step env jb c)") (simp_all add: stages_left_def)
    then show ?thesis using 1 sl by (cases "pc (step env jb c)") simp_all
  next
    case 2
    then show ?thesis using sl r f by (simp add: stages_left_def)
  next
    case 3
    then show ?thesis using sl r f by (simp add: stages_left_def)
  qed
next
  case None
  then show ?thesis
    using assms
    by (cases "pc c") (auto simp: stages_left_def step_def Let_def)
qed

lemma run_with_stops_done:
  assumes "pc c \<noteq> AtStart" and "stages_left c \<le> length bs"
  shows "pc (run_with_stops env jb bs c) = Done"
  using assms
proof (induction bs arbitrary: c)
  case Nil
  then show ?case by (cases "pc c") (simp_all add: stages_left_def)
next
  case (Cons b bs)
  let ?c0 = "if b then stop_config c else c"
  have c0: "pc ?c0 = pc c" "stages_left ?c0 = stages_left c"
    by (simp_all add: stages_left_stop)
  show ?case
  proof (cases "pc c = Done")
    case True
    then have "step env jb ?c0 = ?c0" by (simp add: step_def stop_config_def)
    moreover have "stages_left ?c0 \<le> length bs" using True c0 by (simp add: stages_left_def)
    ultimately show ?thesis using Cons.IH [of ?c0] c0 Cons.prems(1) by simp
  next
    case False
    then have "stages_left (step env jb ?c0) < stages_left ?c0"
      and "pc (step env jb ?c0) \<noteq> AtStart"
      using stages_left_step [of ?c0 env jb] c0 Cons.prems(1) by simp_all
    then show ?thesis using Cons.IH [of "step env jb ?c0"] Cons.prems(2) c0 by simp
  qed
qed

lemma step_AtStart_stop:
  "pc c = AtStart \<Longrightarrow> step env jb (stop_config c) = stop_config (step env jb c)"
  by (simp add: step_def Let_def stop_config_def stop_commutes split: sum.splits)

lemma step_AtStart_pc: "pc c = AtStart \<Longrightarrow> pc (step env jb c) \<noteq> AtStart"
  by (simp add: step_def Let_def split: sum.splits)

lemma run_terminates:
  assumes "Suc (stages_left (step env jb (initial w))) \<le> length bs"
  shows "pc (run_with_stops env jb bs (initial w)) = Done"
proof (cases bs)
  case Nil
  then show ?thesis using assms by simp
next
  case (Cons b bs')
  let ?c0 = "if b then stop_config (initial w) else initial w"
  have st: "pc (initial w) = AtStart" by (simp add: initial_def)
  have "step env jb ?c0 = (if b then stop_config (step env jb (initial w)) else step env jb (initial w))"
    using step_AtStart_stop [OF st, of env jb] by simp
  then have "stages_left (step env jb ?c0) = stages_left (step env jb (initial w))"
    and "pc (step env jb ?c0) \<noteq> AtStart"
    using step_AtStart_pc [OF st, of env jb] by (simp_all add: stages_left_stop)
  then show ?thesis
    using assms Cons run_with_stops_done [of "step env jb ?c0" bs' env jb] by simp
qed

end
